theory Spec2Isabelle
  imports Complex_Main
begin

section \<open>The BrainWorks patient-intake component\<close>

text \<open>
  A shallow embedding of the live component \<open>BrainWorksApp\<close> of
  \<open>src/components/detection.jsx\<close> (lines 2751 to 2914; everything above line 2594 of
  that file is commented out). The component holds five pieces of React state, three
  event handlers and one promise-returning stub. Each handler becomes a function from
  the state before the event to the state after it. The two effects that leave the
  component, \<open>alert\<close> and \<open>setTimeout\<close>, are recorded in the state: the texts of the
  alert dialogs raised so far, and the delays of the timers that are scheduled and have
  not fired yet.
\<close>

subsection \<open>JavaScript values\<close>

text \<open>A \<open>File\<close> of the file input: the two properties the component reads.\<close>

record js_file =
  file_name :: string
  file_type :: string

text \<open>
  The values a property of \<open>formData\<close> can hold: the string of a text input, the boolean
  of a checkbox, a \<open>File\<close>, or \<open>null\<close>. A property that is absent reads as
  \<open>undefined\<close>, which is \<open>None\<close> of the lookup.
\<close>

datatype jsval = Str string | Bool bool | FileObj js_file | Null

text \<open>
  \<open>ToBoolean\<close>, as \<open>!x\<close> and \<open>x && y\<close> apply it: \<open>undefined\<close>, \<open>null\<close>, \<open>false\<close> and
  the empty string are falsy, every object is truthy.
\<close>

fun truthy :: "jsval option \<Rightarrow> bool" where
  "truthy None = False"
| "truthy (Some (Str s)) = (s \<noteq> [])"
| "truthy (Some (Bool b)) = b"
| "truthy (Some (FileObj f)) = True"
| "truthy (Some Null) = False"

text \<open>\<open>s.startsWith(p)\<close>.\<close>

definition startsWith :: "string \<Rightarrow> string \<Rightarrow> bool" where
  "startsWith s p = (take (length p) s = p)"

text \<open>The object URL that \<open>URL.createObjectURL(file)\<close> hands out for a file.\<close>

datatype object_url = ObjectURL js_file

definition createObjectURL :: "js_file \<Rightarrow> object_url" where
  "createObjectURL f = ObjectURL f"

subsection \<open>Number formatting\<close>

text \<open>
  A JavaScript number is an IEEE 754 double. Every finite double is a rational number,
  so numbers are values of type \<open>rat\<close>; \<open>Math.random()\<close> returns a double \<open>r\<close> with
  \<open>0 \<le> r < 1\<close>. \<open>toFixed\<close> works on the exact value of its double.
\<close>

fun digit_char :: "nat \<Rightarrow> char" where
  "digit_char d = ''0123456789'' ! (d mod 10)"

text \<open>The decimal digits of a natural number, as \<open>Number.prototype.toString\<close> writes them.\<close>

fun digits :: "nat \<Rightarrow> string" where
  "digits n = (if n < 10 then [digit_char n] else digits (n div 10) @ [digit_char (n mod 10)])"

declare digits.simps [simp del]

text \<open>
  \<open>x.toFixed(f)\<close> of ECMAScript (Number.prototype.toFixed, for \<open>\<bar>x\<bar> < 10\<^sup>2\<^sup>1\<close>): a negative
  \<open>x\<close> gives the sign and is negated; \<open>n\<close> is the integer for which \<open>n / 10\<^sup>f - x\<close> is
  closest to zero, the larger one of two; its digits are padded with zeros on the left
  to \<open>f + 1\<close> characters, and the point goes before the last \<open>f\<close> of them.
\<close>

definition toFixed :: "nat \<Rightarrow> rat \<Rightarrow> string" where
  "toFixed f x =
     (let s = (if x < 0 then ''-'' else '''');
          y = (if x < 0 then - x else x);
          n = nat \<lfloor>y * 10 ^ f + 1 / 2\<rfloor>;
          m0 = digits n;
          m = (if f \<noteq> 0 \<and> length m0 \<le> f then replicate (f + 1 - length m0) CHR ''0'' @ m0 else m0);
          k = length m
      in if f \<noteq> 0 then s @ take (k - f) m @ ''.'' @ drop (k - f) m else s @ m)"

subsection \<open>Double arithmetic\<close>

text \<open>
  An arithmetic operation on doubles returns the double nearest to the exact result,
  the one with the even significand of two equally near ones. \<open>ilog2 n\<close> is the
  position of the leading bit of \<open>n\<close>, and \<open>binade x\<close>, for positive \<open>x\<close>, the exponent
  \<open>e\<close> with \<open>2\<^sup>e \<le> x < 2\<^sup>e\<^sup>+\<^sup>1\<close>. A double has 53 significant bits, so around \<open>x\<close> the
  doubles are the multiples of \<open>ulp x\<close>, which is \<open>2\<^sup>e\<^sup>-\<^sup>5\<^sup>2\<close>, with \<open>e\<close> not below
  \<open>-1022\<close> (the subnormal range). \<open>toDouble x\<close> is the double nearest to \<open>x\<close>, for
  \<open>\<bar>x\<bar>\<close> below \<open>2\<^sup>1\<^sup>0\<^sup>2\<^sup>4\<close>; the component's numbers do not exceed \<open>100\<close>.
\<close>

fun ilog2 :: "nat \<Rightarrow> nat" where
  "ilog2 n = (if n < 2 then 0 else Suc (ilog2 (n div 2)))"

declare ilog2.simps [simp del]

definition binade :: "rat \<Rightarrow> int" where
  "binade x = (if 1 \<le> x then int (ilog2 (nat \<lfloor>x\<rfloor>))
               else - int (Suc (ilog2 (nat (\<lceil>1 / x\<rceil> - 1)))))"

definition ulp :: "rat \<Rightarrow> rat" where
  "ulp x =
     (let k = max (binade \<bar>x\<bar>) (- 1022) - 52
      in if 0 \<le> k then 2 ^ nat k else 1 / 2 ^ nat (- k))"

definition roundHalfEven :: "rat \<Rightarrow> int" where
  "roundHalfEven z =
     (let f = \<lfloor>z\<rfloor>; d = z - of_int f
      in if d < 1 / 2 then f else if 1 / 2 < d then f + 1 else if even f then f else f + 1)"

definition toDouble :: "rat \<Rightarrow> rat" where
  "toDouble x = (if x = 0 then 0 else sgn x * of_int (roundHalfEven (\<bar>x\<bar> / ulp x)) * ulp x)"

subsection \<open>State\<close>

text \<open>
  \<open>AnalysisResult\<close>: the object that the promise of \<open>simulateAnalysis\<close> resolves to.
\<close>

record analysis_result =
  status :: string
  confidence :: string
  detected :: bool

text \<open>
  The state of the component: the five \<open>useState\<close> cells, then the effects. \<open>formData\<close>
  is a JavaScript object, a map from property names to values. \<open>alerts\<close> lists the texts
  of the alert dialogs raised so far, oldest first. \<open>pending\<close> lists the delays, in
  milliseconds, of the timers of \<open>simulateAnalysis\<close> that are scheduled and have not
  fired, oldest first.
\<close>

record app_state =
  formData :: "string \<rightharpoonup> jsval"
  mriPreview :: "object_url option"
  isAnalyzing :: bool
  showResults :: bool
  analysisResult :: "analysis_result option"
  alerts :: "string list"
  pending :: "nat list"

text \<open>The arguments of the \<open>useState\<close> calls: the state on page load.\<close>

definition initialState :: app_state where
  "initialState =
     \<lparr>formData = [''firstName'' \<mapsto> Str '''', ''lastName'' \<mapsto> Str '''', ''age'' \<mapsto> Str '''',
                  ''phone'' \<mapsto> Str '''', ''email'' \<mapsto> Str '''', ''symptoms'' \<mapsto> Str '''',
                  ''hasMRI'' \<mapsto> Bool False, ''mriFile'' \<mapsto> Null],
      mriPreview = None,
      isAnalyzing = False,
      showResults = False,
      analysisResult = None,
      alerts = [],
      pending = []\<rparr>"

subsection \<open>Handlers\<close>

text \<open>\<open>e.target\<close> of a change event: the four properties \<open>handleInputChange\<close> reads.\<close>

record target =
  target_name :: string
  target_value :: string
  target_type :: string
  target_checked :: bool

definition handleInputChange :: "target \<Rightarrow> app_state \<Rightarrow> app_state" where
  "handleInputChange t s =
     s\<lparr>formData := (formData s)(target_name t \<mapsto>
          (if target_type t = ''checkbox'' then Bool (target_checked t) else Str (target_value t)))\<rparr>"

text \<open>
  \<open>handleFileChange\<close>; its argument is \<open>e.target.files[0]\<close>, which is \<open>undefined\<close>
  (\<open>None\<close>) when the file dialog was closed with nothing selected.
\<close>

definition handleFileChange :: "js_file option \<Rightarrow> app_state \<Rightarrow> app_state" where
  "handleFileChange fo s =
     (case fo of
        None \<Rightarrow> s
      | Some f \<Rightarrow>
          (let s1 = s\<lparr>formData := (formData s)(''mriFile'' \<mapsto> FileObj f)\<rparr>
           in if startsWith (file_type f) ''image/''
              then s1\<lparr>mriPreview := Some (createObjectURL f)\<rparr>
              else s1))"

text \<open>\<open>alert(msg)\<close>: the dialog is raised, nothing else changes.\<close>

definition alert :: "string \<Rightarrow> app_state \<Rightarrow> app_state" where
  "alert msg s = s\<lparr>alerts := alerts s @ [msg]\<rparr>"

text \<open>The second argument of \<open>setTimeout\<close> in \<open>simulateAnalysis\<close>, in milliseconds.\<close>

definition analysisDelay :: nat where
  "analysisDelay = 3000"

text \<open>
  \<open>simulateAnalysis()\<close>: the call itself only schedules the timer. The object the
  promise resolves to is built by the timer's callback from two draws of
  \<open>Math.random()\<close>, the first for the verdict and the second for the confidence. In
  \<open>Math.random() * 20 + 80\<close> the product is rounded to a double, and then the sum is;
  \<open>20\<close>, \<open>80\<close> and \<open>0.5\<close> are doubles, and the comparison is exact.
\<close>

definition simulateAnalysis :: "app_state \<Rightarrow> app_state" where
  "simulateAnalysis s = s\<lparr>pending := pending s @ [analysisDelay]\<rparr>"

definition analysisOutcome :: "rat \<Rightarrow> rat \<Rightarrow> analysis_result" where
  "analysisOutcome r1 r2 =
     (let d = (r1 > 1 / 2)
      in \<lparr>status = (if d then ''Tumor Detected'' else ''No Tumor Detected''),
          confidence = toFixed 2 (toDouble (toDouble (r2 * 20) + 80)) @ ''%'',
          detected = d\<rparr>)"

text \<open>
  \<open>handleSubmit\<close> up to its \<open>await\<close>: the two checks, each ending the handler with an
  alert, then the two setters and the call of \<open>simulateAnalysis\<close>.
\<close>

definition handleSubmit :: "app_state \<Rightarrow> app_state" where
  "handleSubmit s =
     (if \<not> truthy (formData s ''firstName'') \<or> \<not> truthy (formData s ''lastName'')
          \<or> \<not> truthy (formData s ''email'')
      then alert ''Please fill all required fields'' s
      else if truthy (formData s ''hasMRI'') \<and> \<not> truthy (formData s ''mriFile'')
      then alert ''Please upload MRI image'' s
      else simulateAnalysis (s\<lparr>isAnalyzing := True, showResults := False\<rparr>))"

text \<open>
  The rest of \<open>handleSubmit\<close>, after the \<open>await\<close>: it runs when a timer of
  \<open>simulateAnalysis\<close> fires. All timers have the same delay, so they fire in the order
  in which they were scheduled: the oldest pending one fires. With no timer pending
  nothing fires.
\<close>

definition timerFires :: "rat \<Rightarrow> rat \<Rightarrow> app_state \<Rightarrow> app_state" where
  "timerFires r1 r2 s =
     (case pending s of
        [] \<Rightarrow> s
      | d # ds \<Rightarrow>
          s\<lparr>pending := ds,
            analysisResult := Some (analysisOutcome r1 r2),
            isAnalyzing := False,
            showResults := True\<rparr>)"

subsection \<open>The rendered result section\<close>

text \<open>
  A \<open>button\<close> element: its text and its \<open>onClick\<close> property, if it has one. Clicking a
  button that has none runs no code of the component.
\<close>

record button =
  label :: string
  onClick :: "(app_state \<Rightarrow> app_state) option"

definition clickButton :: "button \<Rightarrow> app_state \<Rightarrow> app_state" where
  "clickButton b s = (case onClick b of None \<Rightarrow> s | Some h \<Rightarrow> h s)"

text \<open>
  The buttons of the result section, rendered under \<open>showResults && analysisResult\<close>.
  They stand outside the \<open>form\<close> element, so a click submits nothing either.
\<close>

definition resultButtons :: "app_state \<Rightarrow> button list" where
  "resultButtons s =
     (if showResults s \<and> analysisResult s \<noteq> None
      then [\<lparr>label = ''Preview Result'', onClick = None\<rparr>,
            \<lparr>label = ''Download PDF'', onClick = None\<rparr>]
      else [])"

text \<open>The text of the submit button, which has no \<open>disabled\<close> property.\<close>

definition submitLabel :: "app_state \<Rightarrow> string" where
  "submitLabel s = (if isAnalyzing s then ''Analyzing...'' else ''Submit'')"

subsection \<open>Events\<close>

text \<open>
  What can happen to the mounted component: a change of an input, a change of the file
  input, a submission of the form, a click on a button of the result section (by its
  position), and the firing of the oldest pending timer with its two random draws.
\<close>

datatype event =
    InputChange target
  | FileChange "js_file option"
  | Submit
  | ClickResult nat
  | TimerFires rat rat

fun step :: "event \<Rightarrow> app_state \<Rightarrow> app_state" where
  "step (InputChange t) s = handleInputChange t s"
| "step (FileChange fo) s = handleFileChange fo s"
| "step Submit s = handleSubmit s"
| "step (ClickResult i) s =
     (if i < length (resultButtons s) then clickButton (resultButtons s ! i) s else s)"
| "step (TimerFires r1 r2) s = timerFires r1 r2 s"

fun run :: "event list \<Rightarrow> app_state \<Rightarrow> app_state" where
  "run [] s = s"
| "run (e # es) s = run es (step e s)"

text \<open>The states the component can be in: those some sequence of events leads to.\<close>

inductive reachable :: "app_state \<Rightarrow> bool" where
  reachable_init: "reachable initialState"
| reachable_step: "reachable s \<Longrightarrow> reachable (step e s)"

subsection \<open>Reading a percentage\<close>

text \<open>
  What a string of the form \<open>digits.digits%\<close> denotes: the number before the point plus
  the number after it, scaled by its length. Any other string denotes nothing. The
  component never reads its confidence string back; these functions only say which
  number the string shows to the user.
\<close>

fun digit_val :: "char \<Rightarrow> nat option" where
  "digit_val c = (if c \<in> set ''0123456789'' then Some (of_char c - 48) else None)"

fun read_digits :: "nat \<Rightarrow> string \<Rightarrow> nat option" where
  "read_digits acc [] = Some acc"
| "read_digits acc (c # cs) =
     (case digit_val c of None \<Rightarrow> None | Some d \<Rightarrow> read_digits (acc * 10 + d) cs)"

definition read_nat :: "string \<Rightarrow> nat option" where
  "read_nat s = (if s = [] then None else read_digits 0 s)"

definition percentValue :: "string \<Rightarrow> rat option" where
  "percentValue s =
     (if s = [] \<or> last s \<noteq> CHR ''%'' then None
      else (let body = butlast s;
                ip = takeWhile (\<lambda>c. c \<noteq> CHR ''.'') body;
                fp = drop (length ip + 1) body
            in case (read_nat ip, read_nat fp) of
                 (Some a, Some b) \<Rightarrow> Some (of_nat a + of_nat b / 10 ^ length fp)
               | _ \<Rightarrow> None))"

subsection \<open>A sample session\<close>

text \<open>
  Concrete events and states, for evaluating the handlers: a user fills in the three
  required fields, ticks the MRI checkbox, attaches a scan, submits, and the timer
  fires with the draws \<open>0.75\<close> and \<open>0.5\<close>.
\<close>

definition typeText :: "string \<Rightarrow> string \<Rightarrow> event" where
  "typeText k v =
     InputChange \<lparr>target_name = k, target_value = v, target_type = ''text'', target_checked = False\<rparr>"

definition tick :: "string \<Rightarrow> bool \<Rightarrow> event" where
  "tick k b =
     InputChange \<lparr>target_name = k, target_value = ''on'', target_type = ''checkbox'', target_checked = b\<rparr>"

definition mriScan :: js_file where
  "mriScan = \<lparr>file_name = ''scan.png'', file_type = ''image/png''\<rparr>"

definition filledState :: app_state where
  "filledState = run [typeText ''firstName'' ''Ada'', typeText ''lastName'' ''Lovelace'',
                      typeText ''email'' ''ada@example.org''] initialState"

definition flaggedState :: app_state where
  "flaggedState = step (tick ''hasMRI'' True) filledState"

definition attachedState :: app_state where
  "attachedState = step (FileChange (Some mriScan)) flaggedState"

definition analyzingState :: app_state where
  "analyzingState = step Submit filledState"

definition displayedState :: app_state where
  "displayedState = step (TimerFires (3 / 4) (1 / 2)) analyzingState"

section \<open>Formatting and reading numbers\<close>

lemma digits_small: "n < 10 \<Longrightarrow> digits n = [digit_char n]"
  by (simp add: digits.simps[of n])

lemma digits_large: "10 \<le> n \<Longrightarrow> digits n = digits (n div 10) @ [digit_char (n mod 10)]"
  by (simp add: digits.simps[of n])

lemma digits_ne: "digits n \<noteq> []"
  by (simp add: digits.simps[of n])

lemma floor_rat_numeral: "\<lfloor>numeral a / numeral b :: rat\<rfloor> = numeral a div numeral b"
  using floor_divide_of_int_eq[of "numeral a" "numeral b", where ?'a = rat] by simp

lemma digit_cases: "d mod 10 \<in> {0, 1, 2, 3, 4, 5, 6, 7, 8, 9::nat}"
proof -
  have "d mod 10 < 10" by simp
  then show ?thesis by (simp only: insert_iff empty_iff) arith
qed

lemma digit_val_digit_char: "digit_val (digit_char d) = Some (d mod 10)"
  using digit_cases[of d] by auto

lemma digit_char_ne_point: "digit_char d \<noteq> CHR ''.''"
  using digit_cases[of d] by auto

lemma read_digits_append:
  "read_digits acc (xs @ ys) =
     (case read_digits acc xs of None \<Rightarrow> None | Some a \<Rightarrow> read_digits a ys)"
  by (induction xs arbitrary: acc) (auto split: option.splits)

text \<open>Reading the digits of a number gives the number back.\<close>

lemma read_digits_digits: "read_digits 0 (digits n) = Some n"
proof (induction n rule: digits.induct)
  case (1 n)
  show ?case
  proof (cases "n < 10")
    case True
    then show ?thesis using digit_val_digit_char[of n]
      by (simp add: digits_small del: digit_val.simps digit_char.simps)
  next
    case False
    then show ?thesis using 1 digit_val_digit_char[of "n mod 10"]
      by (simp add: digits_large read_digits_append del: digit_val.simps digit_char.simps)
  qed
qed

lemma digits_no_point: "CHR ''.'' \<notin> set (digits n)"
proof (induction n rule: digits.induct)
  case (1 n)
  show ?case
  proof (cases "n < 10")
    case True
    then show ?thesis using digit_char_ne_point[of n]
      by (auto simp: digits_small simp del: digit_char.simps)
  next
    case False
    then show ?thesis using 1 digit_char_ne_point[of "n mod 10"]
      by (auto simp: digits_large simp del: digit_char.simps)
  qed
qed

lemma digits_hundreds:
  assumes "100 \<le> n"
  shows "digits n = digits (n div 100) @ [digit_char (n div 10 mod 10), digit_char (n mod 10)]"
proof -
  have a: "digits n = digits (n div 10) @ [digit_char (n mod 10)]"
    using assms by (simp add: digits_large)
  have "10 \<le> n div 10" using assms by simp
  then have b: "digits (n div 10) = digits (n div 10 div 10) @ [digit_char (n div 10 mod 10)]"
    by (rule digits_large)
  have "n div 10 div 10 = n div 100" by (simp add: div_mult2_eq[symmetric])
  with a b show ?thesis by simp
qed

text \<open>\<open>toFixed(2)\<close> of a number from \<open>1\<close> on: the hundredths, with the point before the last two digits.\<close>

lemma toFixed_2_form:
  assumes "0 \<le> x" and "100 \<le> nat \<lfloor>x * 100 + 1 / 2\<rfloor>"
  shows "toFixed 2 x =
    (let n = nat \<lfloor>x * 100 + 1 / 2\<rfloor>
     in digits (n div 100) @ ''.'' @ [digit_char (n div 10 mod 10), digit_char (n mod 10)])"
  using assms digits_hundreds[OF assms(2)]
  by (simp add: toFixed_def Let_def digits_ne del: digit_char.simps)

lemma percentValue_fixed:
  "percentValue (digits a @ ''.'' @ [digit_char b, digit_char c] @ ''%'') =
     Some (of_nat a + of_nat (10 * (b mod 10) + c mod 10) / 100)"
proof -
  let ?body = "digits a @ ''.'' @ [digit_char b, digit_char c]"
  have tw: "takeWhile (\<lambda>c. c \<noteq> CHR ''.'') ?body = digits a"
  proof -
    have "\<And>x. x \<in> set (digits a) \<Longrightarrow> x \<noteq> CHR ''.''"
      using digits_no_point[of a] by auto
    then have "takeWhile (\<lambda>c. c \<noteq> CHR ''.'') ?body =
        digits a @ takeWhile (\<lambda>c. c \<noteq> CHR ''.'') (''.'' @ [digit_char b, digit_char c])"
      by (rule takeWhile_append2)
    then show ?thesis by (simp del: digit_char.simps)
  qed
  have bl: "butlast (digits a @ ''.'' @ [digit_char b, digit_char c] @ ''%'') = ?body"
    by (simp add: butlast_append del: digit_char.simps)
  have fp: "drop (length (digits a) + 1) ?body = [digit_char b, digit_char c]"
    by (simp del: digit_char.simps)
  have ra: "read_nat (digits a) = Some a"
    by (simp add: read_nat_def digits_ne read_digits_digits)
  have rb: "read_nat [digit_char b, digit_char c] = Some (10 * (b mod 10) + c mod 10)"
    using digit_val_digit_char[of b] digit_val_digit_char[of c]
    by (simp add: read_nat_def del: digit_val.simps digit_char.simps)
  show ?thesis
    unfolding percentValue_def Let_def bl tw fp ra rb
    by (simp del: digit_char.simps)
qed

lemma hundredths_split:
  "rat_of_nat (n div 100) + rat_of_nat (10 * (n div 10 mod 10 mod 10) + n mod 10 mod 10) / 100
     = rat_of_nat n / 100"
proof -
  have "n mod (10 * 10) = 10 * (n div 10 mod 10) + n mod 10"
    by (rule mod_mult2_eq)
  then have "10 * (n div 10 mod 10 mod 10) + n mod 10 mod 10 = n mod 100"
    by simp
  moreover have "rat_of_nat n = rat_of_nat (100 * (n div 100) + n mod 100)"
    by simp
  ultimately show ?thesis
    by (simp only: of_nat_add of_nat_mult add_divide_distrib)
qed

section \<open>Rounding to a double\<close>

lemma ilog2_small: "n < 2 \<Longrightarrow> ilog2 n = 0"
  by (simp add: ilog2.simps[of n])

lemma ilog2_large: "2 \<le> n \<Longrightarrow> ilog2 n = Suc (ilog2 (n div 2))"
  by (simp add: ilog2.simps[of n])

lemma ceiling_rat_numeral:
  "\<lceil>numeral a / numeral b :: rat\<rceil> = - ((- numeral a) div numeral b)"
  using ceiling_divide_eq_div[of "numeral a" "numeral b"] by simp

lemmas double_eval = toDouble_def ulp_def binade_def roundHalfEven_def Let_def
  ilog2_small ilog2_large floor_rat_numeral ceiling_rat_numeral

text \<open>The nearest doubles to \<open>0.1\<close> and to \<open>-1/3\<close>, and a tie that goes to the even significand.\<close>

lemma toDouble_tenth: "toDouble (1 / 10) = 3602879701896397 / 36028797018963968"
  by (simp add: double_eval)

lemma toDouble_minus_third: "toDouble (- 1 / 3) = - (6004799503160661 / 18014398509481984)"
  by (simp add: double_eval)

lemma toDouble_tie: "toDouble (9007199254740993 :: rat) = 9007199254740992"
  by (simp add: double_eval)

lemma ilog2_bounds: "0 < n \<Longrightarrow> 2 ^ ilog2 n \<le> n \<and> n < 2 ^ Suc (ilog2 n)"
proof (induction n rule: ilog2.induct)
  case (1 n)
  show ?case
  proof (cases "n < 2")
    case True
    with 1(2) show ?thesis by (simp add: ilog2_small)
  next
    case False
    then have "0 < n div 2" by simp
    with 1(1) False
    have ih: "2 ^ ilog2 (n div 2) \<le> n div 2" "n div 2 < 2 ^ Suc (ilog2 (n div 2))"
      by simp_all
    from False have e: "ilog2 n = Suc (ilog2 (n div 2))" by (simp add: ilog2_large)
    from ih show ?thesis unfolding e by (simp add: power_Suc) linarith
  qed
qed

text \<open>\<open>binade x\<close> is the exponent of the power of two at or below \<open>x\<close>.\<close>

lemma binade_le:
  assumes "0 < x"
  shows "2 powi binade x \<le> x"
proof (cases "1 \<le> x")
  case True
  then have "0 < nat \<lfloor>x\<rfloor>" by simp
  then have "2 ^ ilog2 (nat \<lfloor>x\<rfloor>) \<le> nat \<lfloor>x\<rfloor>"
    using ilog2_bounds by blast
  then have "rat_of_nat (2 ^ ilog2 (nat \<lfloor>x\<rfloor>)) \<le> rat_of_nat (nat \<lfloor>x\<rfloor>)"
    by (simp only: of_nat_le_iff)
  also have "\<dots> = of_int \<lfloor>x\<rfloor>" using True by simp
  also have "\<dots> \<le> x" by simp
  finally show ?thesis using True by (simp add: binade_def)
next
  case False
  define N where "N = nat (\<lceil>1 / x\<rceil> - 1)"
  from False assms have "1 < 1 / x" by simp
  then have c: "2 \<le> \<lceil>1 / x\<rceil>" by linarith
  then have "0 < N" by (simp add: N_def)
  then have "N < 2 ^ Suc (ilog2 N)" using ilog2_bounds by blast
  then have le: "Suc N \<le> 2 ^ Suc (ilog2 N)" by simp
  have "int (Suc N) = \<lceil>1 / x\<rceil>" unfolding N_def using c by linarith
  then have "rat_of_int (int (Suc N)) = of_int \<lceil>1 / x\<rceil>" by (rule arg_cong)
  then have eq: "of_int \<lceil>1 / x\<rceil> = rat_of_nat (Suc N)" by (simp only: of_int_of_nat_eq)
  have "1 / x \<le> of_int \<lceil>1 / x\<rceil>" by (rule le_of_int_ceiling)
  also note eq
  also have "rat_of_nat (Suc N) \<le> rat_of_nat (2 ^ Suc (ilog2 N))"
    using le by (simp only: of_nat_le_iff)
  also have "\<dots> = 2 ^ Suc (ilog2 N)" by simp
  finally have "1 / x \<le> 2 ^ Suc (ilog2 N)" .
  then have "1 / 2 ^ Suc (ilog2 N) \<le> x"
    using assms by (simp add: field_simps)
  moreover have "2 powi binade x = (1::rat) / 2 ^ Suc (ilog2 N)"
  proof -
    have "binade x = - int (Suc (ilog2 N))"
      using False by (simp add: binade_def N_def)
    then have "(2::rat) powi binade x = 2 powi (- int (Suc (ilog2 N)))" by simp
    also have "\<dots> = inverse (2 powi int (Suc (ilog2 N)))" by (rule power_int_minus)
    also have "\<dots> = inverse (2 ^ Suc (ilog2 N))" by (simp only: power_int_of_nat)
    also have "\<dots> = 1 / 2 ^ Suc (ilog2 N)" by (rule inverse_eq_divide)
    finally show ?thesis .
  qed
  ultimately show ?thesis by simp
qed

lemma binade_gt:
  assumes "0 < x"
  shows "x < 2 powi (binade x + 1)"
proof (cases "1 \<le> x")
  case True
  define n where "n = nat \<lfloor>x\<rfloor>"
  from True have "0 < n" by (simp add: n_def)
  then have "n < 2 ^ Suc (ilog2 n)" using ilog2_bounds by blast
  then have "Suc n \<le> 2 ^ Suc (ilog2 n)" by simp
  then have "rat_of_nat (Suc n) \<le> rat_of_nat (2 ^ Suc (ilog2 n))"
    by (simp only: of_nat_le_iff)
  moreover have "x < rat_of_nat (Suc n)"
  proof -
    have "x < of_int (\<lfloor>x\<rfloor> + 1)" by linarith
    also have "\<lfloor>x\<rfloor> + 1 = int (Suc n)" using True by (simp add: n_def)
    finally show ?thesis by (simp only: of_int_of_nat_eq)
  qed
  ultimately have "x < 2 ^ Suc (ilog2 n)" by simp
  moreover have "(2::rat) powi (binade x + 1) = 2 ^ Suc (ilog2 n)"
  proof -
    have "binade x + 1 = int (Suc (ilog2 n))" using True by (simp add: binade_def n_def)
    then show ?thesis by (simp only: power_int_of_nat)
  qed
  ultimately show ?thesis by simp
next
  case False
  define N where "N = nat (\<lceil>1 / x\<rceil> - 1)"
  from False assms have "1 < 1 / x" by simp
  then have c: "2 \<le> \<lceil>1 / x\<rceil>" by linarith
  then have "0 < N" by (simp add: N_def)
  then have le: "2 ^ ilog2 N \<le> N" using ilog2_bounds by blast
  have "int N = \<lceil>1 / x\<rceil> - 1" unfolding N_def using c by linarith
  then have "rat_of_int (int N) = of_int (\<lceil>1 / x\<rceil> - 1)" by (rule arg_cong)
  then have eq: "rat_of_nat N = of_int (\<lceil>1 / x\<rceil> - 1)" by (simp only: of_int_of_nat_eq)
  have "(2::rat) ^ ilog2 N = rat_of_nat (2 ^ ilog2 N)" by simp
  also have "\<dots> \<le> rat_of_nat N" using le by (simp only: of_nat_le_iff)
  also note eq
  also have "rat_of_int (\<lceil>1 / x\<rceil> - 1) < 1 / x" by linarith
  finally have "2 ^ ilog2 N < 1 / x" .
  then have "x < 1 / 2 ^ ilog2 N" using assms by (simp add: field_simps)
  moreover have "(2::rat) powi (binade x + 1) = 1 / 2 ^ ilog2 N"
  proof -
    have "binade x + 1 = - int (ilog2 N)"
      using False by (simp add: binade_def N_def)
    then have "(2::rat) powi (binade x + 1) = 2 powi (- int (ilog2 N))" by simp
    also have "\<dots> = inverse (2 powi int (ilog2 N))" by (rule power_int_minus)
    also have "\<dots> = inverse (2 ^ ilog2 N)" by (simp only: power_int_of_nat)
    also have "\<dots> = 1 / 2 ^ ilog2 N" by (rule inverse_eq_divide)
    finally show ?thesis .
  qed
  ultimately show ?thesis by simp
qed

text \<open>Rounding to an integer stays between floor and ceiling, within a half.\<close>

lemma roundHalfEven_near: "\<bar>of_int (roundHalfEven z) - z\<bar> \<le> 1 / 2"
proof -
  have "of_int \<lfloor>z\<rfloor> \<le> z" "z < of_int \<lfloor>z\<rfloor> + 1" by linarith+
  then show ?thesis
    by (auto simp: roundHalfEven_def Let_def abs_le_iff)
qed


lemma roundHalfEven_bounds: "\<lfloor>z\<rfloor> \<le> roundHalfEven z \<and> roundHalfEven z \<le> \<lceil>z\<rceil>"
proof -
  have "z = of_int \<lfloor>z\<rfloor> \<or> \<lceil>z\<rceil> = \<lfloor>z\<rfloor> + 1"
    by (metis ceiling_altdef)
  moreover have "z - of_int \<lfloor>z\<rfloor> < 1 / 2" if "z = of_int \<lfloor>z\<rfloor>"
    using that by simp
  ultimately show ?thesis
    by (auto simp: roundHalfEven_def Let_def)
qed

lemma ulp_pos: "0 < ulp x"
  by (simp add: ulp_def Let_def)

text \<open>Below \<open>2\<^sup>5\<^sup>3\<close> every integer is a multiple of the unit in the last place.\<close>

lemma int_over_ulp:
  assumes "0 < x" and "x < 2 ^ 53"
  shows "\<exists>M::int. of_int N / ulp x = of_int M"
proof -
  define k where "k = max (binade \<bar>x\<bar>) (- 1022) - 52"
  have "2 powi binade x \<le> x" using assms(1) by (rule binade_le)
  also have "x < 2 powi 53" using assms(2) by simp
  finally have "(2::rat) powi binade x < 2 powi 53" .
  then have "binade x < 53" by (rule power_int_le_imp_less_exp[rotated]) simp_all
  then have k: "k \<le> 0" using assms(1) by (simp add: k_def)
  have "ulp x = 1 / 2 ^ nat (- k)"
  proof (cases "k = 0")
    case True
    then show ?thesis unfolding ulp_def Let_def k_def[symmetric] by simp
  next
    case False
    with k have "\<not> 0 \<le> k" by simp
    then show ?thesis unfolding ulp_def Let_def k_def[symmetric] by simp
  qed
  then have "of_int N / ulp x = of_int (N * 2 ^ nat (- k))" by simp
  then show ?thesis ..
qed

lemma toDouble_nonneg:
  assumes "0 \<le> x"
  shows "0 \<le> toDouble x"
proof -
  have "0 \<le> \<bar>x\<bar> / ulp x" using ulp_pos[of x] by simp
  then have "0 \<le> \<lfloor>\<bar>x\<bar> / ulp x\<rfloor>" by simp
  then have "0 \<le> roundHalfEven (\<bar>x\<bar> / ulp x)"
    using roundHalfEven_bounds[of "\<bar>x\<bar> / ulp x"] by linarith
  then show ?thesis using assms ulp_pos[of x] by (simp add: toDouble_def sgn_if)
qed

text \<open>\<open>toDouble x\<close> is a multiple of \<open>ulp x\<close> at most half a unit away from \<open>x\<close>.\<close>

lemma toDouble_near: "\<bar>toDouble x - x\<bar> \<le> ulp x / 2"
proof (cases "x = 0")
  case True
  then show ?thesis using ulp_pos[of x] by (simp add: toDouble_def)
next
  case False
  define m where "m = rat_of_int (roundHalfEven (\<bar>x\<bar> / ulp x))"
  have u: "0 < ulp x" by (rule ulp_pos)
  have "\<bar>m - \<bar>x\<bar> / ulp x\<bar> \<le> 1 / 2" unfolding m_def by (rule roundHalfEven_near)
  then have "\<bar>m - \<bar>x\<bar> / ulp x\<bar> * ulp x \<le> 1 / 2 * ulp x"
    using u by (intro mult_right_mono) simp_all
  moreover have "\<bar>m - \<bar>x\<bar> / ulp x\<bar> * ulp x = \<bar>m * ulp x - \<bar>x\<bar>\<bar>"
  proof -
    have "\<bar>m - \<bar>x\<bar> / ulp x\<bar> * ulp x = \<bar>(m - \<bar>x\<bar> / ulp x) * ulp x\<bar>"
      using u by (simp add: abs_mult)
    also have "(m - \<bar>x\<bar> / ulp x) * ulp x = m * ulp x - \<bar>x\<bar>"
      using u by (simp add: field_simps)
    finally show ?thesis .
  qed
  moreover have "\<bar>toDouble x - x\<bar> = \<bar>m * ulp x - \<bar>x\<bar>\<bar>"
    using False by (auto simp: toDouble_def m_def sgn_if)
  ultimately show ?thesis by simp
qed

text \<open>Rounding does not cross an integer below \<open>2\<^sup>5\<^sup>3\<close>: integers of that size are doubles.\<close>

lemma toDouble_le_int:
  assumes "0 \<le> x" and "x \<le> of_int N" and "x < 2 ^ 53"
  shows "toDouble x \<le> of_int N"
proof (cases "x = 0")
  case True
  with assms show ?thesis by (simp add: toDouble_def)
next
  case False
  with assms have p: "0 < x" by simp
  obtain M :: int where M: "of_int N / ulp x = of_int M"
    using int_over_ulp[OF p assms(3)] by blast
  have "x / ulp x \<le> of_int N / ulp x"
    using assms(2) ulp_pos[of x] by (simp add: divide_right_mono)
  then have "\<lceil>x / ulp x\<rceil> \<le> M" unfolding M by (simp add: ceiling_le_iff)
  then have "roundHalfEven (x / ulp x) \<le> M"
    using roundHalfEven_bounds[of "x / ulp x"] by linarith
  then have "rat_of_int (roundHalfEven (x / ulp x)) * ulp x \<le> of_int M * ulp x"
    using ulp_pos[of x] by (simp add: mult_right_mono)
  also have "of_int M * ulp x = of_int N"
    using M ulp_pos[of x] by (simp add: field_simps)
  finally show ?thesis using p by (simp add: toDouble_def)
qed

lemma toDouble_ge_int:
  assumes "0 < x" and "of_int N \<le> x" and "x < 2 ^ 53"
  shows "of_int N \<le> toDouble x"
proof -
  obtain M :: int where M: "of_int N / ulp x = of_int M"
    using int_over_ulp[OF assms(1) assms(3)] by blast
  have "of_int N / ulp x \<le> x / ulp x"
    using assms(2) ulp_pos[of x] by (simp add: divide_right_mono)
  then have "M \<le> \<lfloor>x / ulp x\<rfloor>" unfolding M by (simp add: le_floor_iff)
  then have "M \<le> roundHalfEven (x / ulp x)"
    using roundHalfEven_bounds[of "x / ulp x"] by linarith
  then have "of_int M * ulp x \<le> rat_of_int (roundHalfEven (x / ulp x)) * ulp x"
    using ulp_pos[of x] by (simp add: mult_right_mono)
  moreover have "of_int M * ulp x = of_int N"
    using M ulp_pos[of x] by (simp add: field_simps)
  ultimately show ?thesis using assms(1) by (simp add: toDouble_def)
qed

text \<open>The double that \<open>r * 20 + 80\<close> evaluates to, for a draw \<open>r\<close>, lies between \<open>80\<close> and \<open>100\<close>.\<close>

lemma scaled_draw_bounds:
  assumes "0 \<le> r" and "r < 1"
  shows "80 \<le> toDouble (toDouble (r * 20) + 80) \<and> toDouble (toDouble (r * 20) + 80) \<le> 100"
proof -
  have a: "0 \<le> r * 20" "r * 20 \<le> of_int 20" "r * 20 < 2 ^ 53" using assms by simp_all
  have p0: "0 \<le> toDouble (r * 20)" using a(1) by (rule toDouble_nonneg)
  have p1: "toDouble (r * 20) \<le> of_int 20" using a by (rule toDouble_le_int)
  let ?y = "toDouble (r * 20) + 80"
  have b: "0 < ?y" "of_int 80 \<le> ?y" "?y \<le> of_int 100" "?y < 2 ^ 53" using p0 p1 by simp_all
  have "of_int 80 \<le> toDouble ?y" using b(1) b(2) b(4) by (rule toDouble_ge_int)
  moreover have "toDouble ?y \<le> of_int 100"
    using b(3) b(4) b(1) by (intro toDouble_le_int) simp_all
  ultimately show ?thesis by simp
qed

section \<open>The analysis result\<close>

lemma analysisOutcome_status:
  "status (analysisOutcome r1 r2) = (if r1 > 1 / 2 then ''Tumor Detected'' else ''No Tumor Detected'')"
  by (simp add: analysisOutcome_def Let_def)

lemma analysisOutcome_detected: "detected (analysisOutcome r1 r2) = (r1 > 1 / 2)"
  by (simp add: analysisOutcome_def Let_def)

lemma analysisOutcome_confidence:
  "confidence (analysisOutcome r1 r2) = toFixed 2 (toDouble (toDouble (r2 * 20) + 80)) @ ''%''"
  by (simp add: analysisOutcome_def Let_def)

lemma confidence_hundredths_bounds:
  assumes "80 \<le> x" and "x \<le> 100"
  shows "8000 \<le> \<lfloor>x * 100 + 1 / 2\<rfloor>" and "\<lfloor>x * 100 + 1 / 2\<rfloor> \<le> (10000::int)"
proof -
  show "8000 \<le> \<lfloor>x * 100 + 1 / 2\<rfloor>"
    using assms by (simp add: le_floor_iff)
  show "\<lfloor>x * 100 + 1 / 2\<rfloor> \<le> (10000::int)"
    using assms by (simp add: floor_le_iff)
qed

lemmas confidence_eval = analysisOutcome_def double_eval toFixed_def digits_small digits_large

text \<open>
  Draws at which the rounding of the product and of the sum decides the string: the
  exact values of \<open>r * 20 + 80\<close> would be shown as \<open>99.99%\<close>, \<open>99.98%\<close> and \<open>80.01%\<close>.
  At the largest double below \<open>1\<close> the sum is the double \<open>100\<close> itself.
\<close>

lemma confidence_rounded_up:
  "confidence (analysisOutcome (3 / 4) (4502473727463653 / 4503599627370496)) = ''100.00%''"
  by (simp add: confidence_eval)

lemma confidence_rounded_down:
  "confidence (analysisOutcome (3 / 4) (4497970127836283 / 4503599627370496)) = ''99.97%''"
  by (simp add: confidence_eval)

lemma confidence_rounded_low:
  "confidence (analysisOutcome (3 / 4) (1125899906843 / 4503599627370496)) = ''80.00%''"
  by (simp add: confidence_eval)

lemma scaled_draw_largest:
  "toDouble (toDouble (9007199254740991 / 9007199254740992 * 20) + 80) = 100"
  by (simp add: double_eval)

lemma confidence_at_4095: "confidence (analysisOutcome (3 / 4) (4095 / 4096)) = ''100.00%''"
  by (simp add: confidence_eval)

lemma double_4095: "toDouble (4095 / 4096) = 4095 / 4096"
  by (simp add: double_eval)

lemma percentValue_100: "percentValue ''100.00%'' = Some 100"
  by (simp add: percentValue_def read_nat_def)

text \<open>
  Claim C1, as the specification states it: for every draw \<open>r\<close> in \<open>[0, 1)\<close> the
  confidence string, \<open>r * 20 + 80\<close> formatted to two decimals with \<open>%\<close> appended, denotes
  a percentage in the half-open interval \<open>[80, 100)\<close>. This fails: \<open>toFixed(2)\<close> rounds to
  the nearest hundredth. The draw \<open>4095/4096\<close>, a double, gives \<open>99.9951171875\<close> with
  no rounding in either operation, and that is shown as \<open>100.00%\<close>.
\<close>

theorem confidence_100_counterexample:
  "(0::rat) \<le> 4095 / 4096 \<and> (4095 / 4096 :: rat) < 1 \<and>
   toDouble (4095 / 4096) = 4095 / 4096 \<and>
   confidence (analysisOutcome (3 / 4) (4095 / 4096)) = ''100.00%'' \<and>
   percentValue (confidence (analysisOutcome (3 / 4) (4095 / 4096))) = Some 100 \<and>
   \<not> ((100::rat) < 100)"
  by (simp add: confidence_at_4095 double_4095 percentValue_100)

text \<open>
  Claim C1, amended: for every draw \<open>r\<close> in \<open>[0, 1)\<close> the confidence string denotes a
  percentage in the closed interval \<open>[80, 100]\<close>.
\<close>

theorem confidence_within_80_100:
  assumes "0 \<le> r" and "r < 1"
  shows "\<exists>q. percentValue (confidence (analysisOutcome r1 r)) = Some q \<and> 80 \<le> q \<and> q \<le> 100"
proof -
  define x where "x = toDouble (toDouble (r * 20) + 80)"
  define z where "z = \<lfloor>x * 100 + 1 / 2\<rfloor>"
  define n where "n = nat z"
  have x: "80 \<le> x" "x \<le> 100"
    using scaled_draw_bounds[OF assms] by (simp_all add: x_def)
  have z: "8000 \<le> z" "z \<le> 10000"
    using confidence_hundredths_bounds[OF x] by (simp_all add: z_def)
  have n: "rat_of_nat n = of_int z" "100 \<le> n" using z by (simp_all add: n_def)
  have "0 \<le> x" using x by simp
  moreover have "100 \<le> nat \<lfloor>x * 100 + 1 / 2\<rfloor>" using n(2) by (simp only: n_def z_def)
  ultimately have tf: "toFixed 2 x =
      digits (n div 100) @ ''.'' @ [digit_char (n div 10 mod 10), digit_char (n mod 10)]"
    unfolding n_def z_def by (rule toFixed_2_form[unfolded Let_def])
  have "percentValue (toFixed 2 x @ ''%'') = Some (rat_of_nat n / 100)"
    unfolding tf append_assoc percentValue_fixed hundredths_split ..
  then have pv: "percentValue (confidence (analysisOutcome r1 r)) = Some (rat_of_nat n / 100)"
    by (simp only: analysisOutcome_confidence x_def)
  have lo: "80 \<le> rat_of_nat n / 100" and hi: "rat_of_nat n / 100 \<le> 100"
    using z by (simp_all add: n(1))
  from pv lo hi show ?thesis by blast
qed

theorem confidence_within_80_100_witness:
  "(0::rat) \<le> 4497970127836283 / 4503599627370496 \<and>
   (4497970127836283 / 4503599627370496 :: rat) < 1 \<and>
   confidence (analysisOutcome (3 / 4) (4497970127836283 / 4503599627370496)) = ''99.97%'' \<and>
   (\<exists>q. percentValue (confidence (analysisOutcome (3 / 4) (4497970127836283 / 4503599627370496)))
          = Some q \<and> 80 \<le> q \<and> q \<le> 100)"
proof -
  have h: "(0::rat) \<le> 4497970127836283 / 4503599627370496"
    "(4497970127836283 / 4503599627370496 :: rat) < 1" by simp_all
  have c: "confidence (analysisOutcome (3 / 4) (4497970127836283 / 4503599627370496)) = ''99.97%''"
    by (simp add: confidence_eval)
  note e = confidence_within_80_100[OF h, of "3 / 4"]
  from h c e show ?thesis by (intro conjI)
qed

text \<open>
  Claim C4, as the specification states it: every result carries one of the two verdict
  labels \<open>tumor-detected\<close> (draw above \<open>0.5\<close>) or \<open>normal\<close> (otherwise). The component has
  neither label: for the draw \<open>0.75\<close> the status is \<open>Tumor Detected\<close>, for the draw
  \<open>0.25\<close> it is \<open>No Tumor Detected\<close>.
\<close>

theorem verdict_labels_counterexample:
  "(3 / 4 :: rat) > 1 / 2
   \<and> status (analysisOutcome (3 / 4) 0) = ''Tumor Detected''
   \<and> status (analysisOutcome (3 / 4) 0) \<noteq> ''tumor-detected''
   \<and> \<not> ((1 / 4 :: rat) > 1 / 2)
   \<and> status (analysisOutcome (1 / 4) 0) = ''No Tumor Detected''
   \<and> status (analysisOutcome (1 / 4) 0) \<noteq> ''normal''"
  by (simp add: analysisOutcome_status)

text \<open>
  Claim C4, amended: every result carries exactly one of the two verdict labels
  \<open>Tumor Detected\<close> (when the first draw exceeds \<open>0.5\<close>) or \<open>No Tumor Detected\<close>
  (otherwise), together with a confidence string, which is the second draw scaled in
  double arithmetic, formatted to two decimals and ended by \<open>%\<close>, and a boolean flag
  \<open>detected\<close>.
\<close>

theorem verdict_labels:
  "status (analysisOutcome r1 r2) = (if r1 > 1 / 2 then ''Tumor Detected'' else ''No Tumor Detected'')
   \<and> ''Tumor Detected'' \<noteq> ''No Tumor Detected''
   \<and> confidence (analysisOutcome r1 r2)
        = toFixed 2 (toDouble (toDouble (r2 * 20) + 80)) @ ''%''
   \<and> last (confidence (analysisOutcome r1 r2)) = CHR ''%''
   \<and> detected (analysisOutcome r1 r2) = (r1 > 1 / 2)"
  by (simp add: analysisOutcome_status analysisOutcome_confidence analysisOutcome_detected)

text \<open>
  Claim C9. In every analysis result the flag \<open>detected\<close> is true exactly when the
  status is the positive verdict, and false exactly when it is the negative verdict;
  the two verdicts are different strings, so flag and label never disagree.
\<close>

theorem detected_iff_status:
  "(detected (analysisOutcome r1 r2) \<longleftrightarrow> status (analysisOutcome r1 r2) = ''Tumor Detected'')
   \<and> (\<not> detected (analysisOutcome r1 r2) \<longleftrightarrow> status (analysisOutcome r1 r2) = ''No Tumor Detected'')"
  by (simp add: analysisOutcome_status analysisOutcome_detected)

section \<open>Submitting the form\<close>

text \<open>The three ways through \<open>handleSubmit\<close>.\<close>

lemma handleSubmit_missing_required:
  assumes "\<not> truthy (formData s ''firstName'') \<or> \<not> truthy (formData s ''lastName'')
           \<or> \<not> truthy (formData s ''email'')"
  shows "handleSubmit s = s\<lparr>alerts := alerts s @ [''Please fill all required fields'']\<rparr>"
  using assms unfolding handleSubmit_def alert_def by (simp only: if_True)

lemma handleSubmit_missing_mri:
  assumes "truthy (formData s ''firstName'')" "truthy (formData s ''lastName'')"
    "truthy (formData s ''email'')"
    and "truthy (formData s ''hasMRI'')" "\<not> truthy (formData s ''mriFile'')"
  shows "handleSubmit s = s\<lparr>alerts := alerts s @ [''Please upload MRI image'']\<rparr>"
  using assms unfolding handleSubmit_def alert_def by simp

lemma handleSubmit_accepted:
  assumes "truthy (formData s ''firstName'')" "truthy (formData s ''lastName'')"
    "truthy (formData s ''email'')"
    and "\<not> (truthy (formData s ''hasMRI'') \<and> \<not> truthy (formData s ''mriFile''))"
  shows "handleSubmit s = s\<lparr>isAnalyzing := True, showResults := False,
                              pending := pending s @ [analysisDelay]\<rparr>"
  using assms unfolding handleSubmit_def simulateAnalysis_def by auto

text \<open>The states of the sample session, field by field.\<close>

lemma filledState_eq:
  "filledState = initialState\<lparr>formData := (formData initialState)
      (''firstName'' \<mapsto> Str ''Ada'', ''lastName'' \<mapsto> Str ''Lovelace'',
       ''email'' \<mapsto> Str ''ada@example.org'')\<rparr>"
  by (simp add: filledState_def typeText_def handleInputChange_def)

lemma filledState_fields:
  "formData filledState ''firstName'' = Some (Str ''Ada'')"
  "formData filledState ''lastName'' = Some (Str ''Lovelace'')"
  "formData filledState ''email'' = Some (Str ''ada@example.org'')"
  "formData filledState ''hasMRI'' = Some (Bool False)"
  "formData filledState ''mriFile'' = Some Null"
  "pending filledState = []" "alerts filledState = []" "isAnalyzing filledState = False"
  "showResults filledState = False" "analysisResult filledState = None"
  by (simp_all add: filledState_eq initialState_def)

lemma flaggedState_fields:
  "formData flaggedState ''firstName'' = Some (Str ''Ada'')"
  "formData flaggedState ''lastName'' = Some (Str ''Lovelace'')"
  "formData flaggedState ''email'' = Some (Str ''ada@example.org'')"
  "formData flaggedState ''hasMRI'' = Some (Bool True)"
  "formData flaggedState ''mriFile'' = Some Null"
  "pending flaggedState = []" "alerts flaggedState = []"
  by (simp_all add: flaggedState_def tick_def handleInputChange_def filledState_fields)

lemma attachedState_fields:
  "formData attachedState ''firstName'' = Some (Str ''Ada'')"
  "formData attachedState ''lastName'' = Some (Str ''Lovelace'')"
  "formData attachedState ''email'' = Some (Str ''ada@example.org'')"
  "formData attachedState ''hasMRI'' = Some (Bool True)"
  "formData attachedState ''mriFile'' = Some (FileObj mriScan)"
  "mriPreview attachedState = Some (ObjectURL mriScan)"
  "pending attachedState = []" "alerts attachedState = []"
  by (simp_all add: attachedState_def handleFileChange_def Let_def startsWith_def mriScan_def
      createObjectURL_def flaggedState_fields)

lemma analyzingState_eq:
  "analyzingState =
     filledState\<lparr>isAnalyzing := True, showResults := False, pending := [analysisDelay]\<rparr>"
  unfolding analyzingState_def step.simps
  by (subst handleSubmit_accepted) (simp_all add: filledState_fields)

lemma displayedState_eq:
  "displayedState = filledState\<lparr>isAnalyzing := False, showResults := True, pending := [],
     analysisResult := Some (analysisOutcome (3 / 4) (1 / 2))\<rparr>"
  by (simp add: displayedState_def analyzingState_eq timerFires_def)

lemma displayedState_fields:
  "formData displayedState ''firstName'' = Some (Str ''Ada'')"
  "formData displayedState ''lastName'' = Some (Str ''Lovelace'')"
  "formData displayedState ''email'' = Some (Str ''ada@example.org'')"
  "formData displayedState ''hasMRI'' = Some (Bool False)"
  "formData displayedState ''mriFile'' = Some Null"
  "pending displayedState = []" "alerts displayedState = []"
  "showResults displayedState"
  "analysisResult displayedState = Some (analysisOutcome (3 / 4) (1 / 2))"
  by (simp_all add: displayedState_eq filledState_fields)

lemma reachable_run: "reachable s \<Longrightarrow> reachable (run es s)"
  by (induction es arbitrary: s) (simp_all add: reachable_step)

lemma reachable_filledState: "reachable filledState"
  unfolding filledState_def by (rule reachable_run) (rule reachable_init)

lemma reachable_analyzingState: "reachable analyzingState"
  unfolding analyzingState_def by (rule reachable_step) (rule reachable_filledState)

lemma reachable_displayedState: "reachable displayedState"
  unfolding displayedState_def by (rule reachable_step) (rule reachable_analyzingState)

text \<open>
  Claim C2. In every state in which \<open>firstName\<close>, \<open>lastName\<close> or \<open>email\<close> is empty (reads
  as falsy: for the string of a text input, the empty string), \<open>handleSubmit\<close> raises the
  alert for required fields, schedules no analysis, sets neither \<open>isAnalyzing\<close> nor
  \<open>showResults\<close>, and leaves the form and any earlier analysis result as they were.
  Conversely, when the three fields are non-empty and it is not the case that the MRI
  flag is set with no file attached, no alert is raised and the analysis is started:
  a timer is scheduled, \<open>isAnalyzing\<close> is set and \<open>showResults\<close> is cleared.
\<close>

theorem handleSubmit_required_fields:
  "(\<not> truthy (formData s ''firstName'') \<or> \<not> truthy (formData s ''lastName'')
      \<or> \<not> truthy (formData s ''email'') \<longrightarrow>
      alerts (handleSubmit s) = alerts s @ [''Please fill all required fields'']
      \<and> pending (handleSubmit s) = pending s
      \<and> isAnalyzing (handleSubmit s) = isAnalyzing s
      \<and> showResults (handleSubmit s) = showResults s
      \<and> formData (handleSubmit s) = formData s
      \<and> mriPreview (handleSubmit s) = mriPreview s
      \<and> analysisResult (handleSubmit s) = analysisResult s)
   \<and> (truthy (formData s ''firstName'') \<and> truthy (formData s ''lastName'')
      \<and> truthy (formData s ''email'')
      \<and> \<not> (truthy (formData s ''hasMRI'') \<and> \<not> truthy (formData s ''mriFile'')) \<longrightarrow>
      alerts (handleSubmit s) = alerts s
      \<and> pending (handleSubmit s) = pending s @ [analysisDelay]
      \<and> isAnalyzing (handleSubmit s)
      \<and> \<not> showResults (handleSubmit s)
      \<and> formData (handleSubmit s) = formData s
      \<and> mriPreview (handleSubmit s) = mriPreview s
      \<and> analysisResult (handleSubmit s) = analysisResult s)"
proof (intro conjI impI)
  assume "\<not> truthy (formData s ''firstName'') \<or> \<not> truthy (formData s ''lastName'')
      \<or> \<not> truthy (formData s ''email'')"
  then have r: "handleSubmit s = s\<lparr>alerts := alerts s @ [''Please fill all required fields'']\<rparr>"
    by (rule handleSubmit_missing_required)
  show "alerts (handleSubmit s) = alerts s @ [''Please fill all required fields'']"
    "pending (handleSubmit s) = pending s" "isAnalyzing (handleSubmit s) = isAnalyzing s"
    "showResults (handleSubmit s) = showResults s" "formData (handleSubmit s) = formData s"
    "mriPreview (handleSubmit s) = mriPreview s"
    "analysisResult (handleSubmit s) = analysisResult s"
    by (simp_all add: r)
next
  assume "truthy (formData s ''firstName'') \<and> truthy (formData s ''lastName'')
      \<and> truthy (formData s ''email'')
      \<and> \<not> (truthy (formData s ''hasMRI'') \<and> \<not> truthy (formData s ''mriFile''))"
  then have a: "handleSubmit s = s\<lparr>isAnalyzing := True, showResults := False,
                              pending := pending s @ [analysisDelay]\<rparr>"
    by (intro handleSubmit_accepted) simp_all
  show "alerts (handleSubmit s) = alerts s"
    "pending (handleSubmit s) = pending s @ [analysisDelay]" "isAnalyzing (handleSubmit s)"
    "\<not> showResults (handleSubmit s)" "formData (handleSubmit s) = formData s"
    "mriPreview (handleSubmit s) = mriPreview s"
    "analysisResult (handleSubmit s) = analysisResult s"
    by (simp_all add: a)
qed

theorem handleSubmit_required_fields_witness:
  "\<not> truthy (formData initialState ''firstName'')
   \<and> alerts (handleSubmit initialState) = [''Please fill all required fields'']
   \<and> pending (handleSubmit initialState) = []
   \<and> \<not> isAnalyzing (handleSubmit initialState)
   \<and> truthy (formData filledState ''firstName'') \<and> truthy (formData filledState ''lastName'')
   \<and> truthy (formData filledState ''email'')
   \<and> alerts (handleSubmit filledState) = []
   \<and> pending (handleSubmit filledState) = [3000]
   \<and> isAnalyzing (handleSubmit filledState)"
proof -
  have e: "\<not> truthy (formData initialState ''firstName'')"
    by (simp add: initialState_def)
  have f: "truthy (formData filledState ''firstName'')" "truthy (formData filledState ''lastName'')"
    "truthy (formData filledState ''email'')"
    "\<not> (truthy (formData filledState ''hasMRI'') \<and> \<not> truthy (formData filledState ''mriFile''))"
    by (simp_all add: filledState_fields)
  have i: "alerts initialState = []" "pending initialState = []" "\<not> isAnalyzing initialState"
    by (simp_all add: initialState_def)
  from e f i handleSubmit_required_fields[of initialState]
    handleSubmit_required_fields[of filledState]
  show ?thesis by (simp add: filledState_fields analysisDelay_def)
qed

text \<open>
  Claim C3. With the three required fields non-empty, \<open>handleSubmit\<close> rejects the
  submission (the MRI alert, no timer scheduled, \<open>isAnalyzing\<close> untouched) if and only
  if the MRI flag is set and no file is attached; in every other case it raises no
  alert and starts the analysis. In particular, with the flag not set a missing file
  never blocks the submission.
\<close>

theorem mri_required_iff_flag:
  assumes "truthy (formData s ''firstName'')" and "truthy (formData s ''lastName'')"
    and "truthy (formData s ''email'')"
  shows "((alerts (handleSubmit s) = alerts s @ [''Please upload MRI image'']
            \<and> pending (handleSubmit s) = pending s \<and> isAnalyzing (handleSubmit s) = isAnalyzing s)
          \<longleftrightarrow> (truthy (formData s ''hasMRI'') \<and> \<not> truthy (formData s ''mriFile'')))
    \<and> (alerts (handleSubmit s) \<noteq> alerts s
          \<longleftrightarrow> (truthy (formData s ''hasMRI'') \<and> \<not> truthy (formData s ''mriFile'')))
    \<and> ((alerts (handleSubmit s) = alerts s \<and> pending (handleSubmit s) = pending s @ [analysisDelay]
            \<and> isAnalyzing (handleSubmit s))
          \<longleftrightarrow> \<not> (truthy (formData s ''hasMRI'') \<and> \<not> truthy (formData s ''mriFile'')))
    \<and> (\<not> truthy (formData s ''hasMRI'') \<longrightarrow>
          alerts (handleSubmit s) = alerts s \<and> pending (handleSubmit s) = pending s @ [analysisDelay]
          \<and> isAnalyzing (handleSubmit s))"
proof (cases "truthy (formData s ''hasMRI'') \<and> \<not> truthy (formData s ''mriFile'')")
  case True
  then have "handleSubmit s = s\<lparr>alerts := alerts s @ [''Please upload MRI image'']\<rparr>"
    using assms by (intro handleSubmit_missing_mri) simp_all
  then show ?thesis using True by simp
next
  case False
  then have "handleSubmit s = s\<lparr>isAnalyzing := True, showResults := False,
                              pending := pending s @ [analysisDelay]\<rparr>"
    using assms by (intro handleSubmit_accepted)
  then show ?thesis using False by auto
qed

theorem mri_required_iff_flag_witness:
  "alerts (handleSubmit flaggedState) = [''Please upload MRI image'']
   \<and> pending (handleSubmit flaggedState) = []
   \<and> alerts (handleSubmit attachedState) = []
   \<and> pending (handleSubmit attachedState) = [3000]
   \<and> alerts (handleSubmit filledState) = []
   \<and> pending (handleSubmit filledState) = [3000]"
proof -
  have a: "truthy (formData flaggedState ''firstName'')" "truthy (formData flaggedState ''lastName'')"
    "truthy (formData flaggedState ''email'')"
    by (simp_all add: flaggedState_fields)
  have b: "truthy (formData attachedState ''firstName'')"
    "truthy (formData attachedState ''lastName'')" "truthy (formData attachedState ''email'')"
    by (simp_all add: attachedState_fields)
  have c: "truthy (formData filledState ''firstName'')" "truthy (formData filledState ''lastName'')"
    "truthy (formData filledState ''email'')"
    by (simp_all add: filledState_fields)
  from mri_required_iff_flag[OF a] mri_required_iff_flag[OF b] mri_required_iff_flag[OF c]
  show ?thesis
    by (simp add: flaggedState_fields attachedState_fields filledState_fields analysisDelay_def)
qed

section \<open>The result section\<close>

lemma clickButton_results: "step (ClickResult i) s = s"
  by (simp add: resultButtons_def clickButton_def nth_Cons split: nat.splits)

text \<open>
  Claim C5 says that the displayed result offers a preview action that opens an alert
  dialog and a download action that produces a text file. The component renders the
  two buttons, \<open>Preview Result\<close> and \<open>Download PDF\<close>, and gives neither an \<open>onClick\<close>
  handler: in the state of the sample session that displays a result, a click on either
  button changes nothing and raises no alert.
\<close>

theorem result_buttons_inert:
  "reachable displayedState
   \<and> showResults displayedState
   \<and> analysisResult displayedState = Some (analysisOutcome (3 / 4) (1 / 2))
   \<and> map label (resultButtons displayedState) = [''Preview Result'', ''Download PDF'']
   \<and> map onClick (resultButtons displayedState) = [None, None]
   \<and> step (ClickResult 0) displayedState = displayedState
   \<and> step (ClickResult 1) displayedState = displayedState
   \<and> alerts (step (ClickResult 0) displayedState) = []"
proof -
  have d: "showResults displayedState"
    "analysisResult displayedState = Some (analysisOutcome (3 / 4) (1 / 2))"
    "alerts displayedState = []"
    by (simp_all add: displayedState_fields)
  have b: "resultButtons displayedState =
      [\<lparr>label = ''Preview Result'', onClick = None\<rparr>, \<lparr>label = ''Download PDF'', onClick = None\<rparr>]"
    by (simp add: resultButtons_def d)
  have c0: "step (ClickResult 0) displayedState = displayedState"
    by (simp add: b clickButton_def)
  have c1: "step (ClickResult 1) displayedState = displayedState"
    by (simp add: b clickButton_def)
  show ?thesis
    using reachable_displayedState d b c0 c1 by simp
qed

section \<open>Pending analyses\<close>

text \<open>
  What one event does to the pending timers: nothing, one more at the end, or, when a
  timer fires, the oldest one gone.
\<close>

lemma pending_step:
  "pending (step e s) = pending s \<or> pending (step e s) = pending s @ [analysisDelay]
   \<or> ((\<exists>r1 r2. e = TimerFires r1 r2) \<and> pending s \<noteq> [] \<and> pending (step e s) = tl (pending s))"
proof (cases e)
  case (InputChange t)
  then show ?thesis by (simp add: handleInputChange_def)
next
  case (FileChange fo)
  then show ?thesis by (simp add: handleFileChange_def Let_def split: option.splits)
next
  case Submit
  then show ?thesis
    by (simp add: handleSubmit_def alert_def simulateAnalysis_def)
next
  case (ClickResult i)
  then show ?thesis by (simp only: clickButton_results) simp
next
  case (TimerFires r1 r2)
  then show ?thesis by (simp add: timerFires_def split: list.splits)
qed

lemma reachable_pending: "reachable s \<Longrightarrow> set (pending s) \<subseteq> {analysisDelay}"
proof (induction rule: reachable.induct)
  case reachable_init
  then show ?case by (simp add: initialState_def)
next
  case (reachable_step s e)
  from pending_step[of e s] show ?case
  proof (elim disjE conjE)
    assume "pending (step e s) = pending s"
    with reachable_step.IH show ?thesis by simp
  next
    assume "pending (step e s) = pending s @ [analysisDelay]"
    with reachable_step.IH show ?thesis by simp
  next
    assume "pending s \<noteq> []" "pending (step e s) = tl (pending s)"
    with reachable_step.IH show ?thesis
      by (cases "pending s") simp_all
  qed
qed

text \<open>
  Claim C6. There is no guard against a second submission. A valid submission made
  while \<open>isAnalyzing\<close> is set schedules one more timer. There is a reachable state with
  one analysis pending, the button reading \<open>Analyzing...\<close>, in which a second
  submission leaves two pending; when the two timers fire, the first result is
  displayed and then replaced by the second, so the analysis that resolves last
  determines what is displayed. And nothing cancels a pending analysis or times it out:
  the only event after which fewer timers are pending is the firing of the oldest one,
  which delivers its result.
\<close>

theorem no_submission_guard:
  "(truthy (formData s ''firstName'') \<and> truthy (formData s ''lastName'')
      \<and> truthy (formData s ''email'')
      \<and> \<not> (truthy (formData s ''hasMRI'') \<and> \<not> truthy (formData s ''mriFile''))
      \<and> isAnalyzing s \<longrightarrow>
        pending (step Submit s) = pending s @ [analysisDelay] \<and> isAnalyzing (step Submit s))
   \<and> (\<exists>s. reachable s \<and> isAnalyzing s \<and> submitLabel s = ''Analyzing...''
          \<and> pending s = [analysisDelay]
          \<and> pending (step Submit s) = [analysisDelay, analysisDelay]
          \<and> (\<forall>a b c d.
                analysisResult (run [TimerFires a b] (step Submit s)) = Some (analysisOutcome a b)
              \<and> pending (run [TimerFires a b] (step Submit s)) = [analysisDelay]
              \<and> analysisResult (run [TimerFires a b, TimerFires c d] (step Submit s))
                  = Some (analysisOutcome c d)
              \<and> showResults (run [TimerFires a b, TimerFires c d] (step Submit s))
              \<and> pending (run [TimerFires a b, TimerFires c d] (step Submit s)) = []))
   \<and> (length (pending (step e t)) < length (pending t) \<longrightarrow>
         (\<exists>r1 r2. e = TimerFires r1 r2) \<and> pending (step e t) = tl (pending t)
         \<and> analysisResult (step e t) \<noteq> None)"
proof (intro conjI impI)
  assume a: "truthy (formData s ''firstName'') \<and> truthy (formData s ''lastName'')
      \<and> truthy (formData s ''email'')
      \<and> \<not> (truthy (formData s ''hasMRI'') \<and> \<not> truthy (formData s ''mriFile''))
      \<and> isAnalyzing s"
  then have "handleSubmit s = s\<lparr>isAnalyzing := True, showResults := False,
                              pending := pending s @ [analysisDelay]\<rparr>"
    by (intro handleSubmit_accepted) simp_all
  then show "pending (step Submit s) = pending s @ [analysisDelay]" "isAnalyzing (step Submit s)"
    by simp_all
next
  have f: "truthy (formData analyzingState ''firstName'')"
    "truthy (formData analyzingState ''lastName'')"
    "truthy (formData analyzingState ''email'')"
    "\<not> (truthy (formData analyzingState ''hasMRI'') \<and> \<not> truthy (formData analyzingState ''mriFile''))"
    by (simp_all add: analyzingState_eq filledState_fields)
  have s2: "handleSubmit analyzingState = analyzingState\<lparr>isAnalyzing := True, showResults := False,
                              pending := pending analyzingState @ [analysisDelay]\<rparr>"
    using f by (rule handleSubmit_accepted)
  have p: "pending analyzingState = [analysisDelay]" "isAnalyzing analyzingState"
    "submitLabel analyzingState = ''Analyzing...''"
    by (simp_all add: analyzingState_eq submitLabel_def)
  have "\<forall>a b c d.
          analysisResult (run [TimerFires a b] (step Submit analyzingState))
            = Some (analysisOutcome a b)
        \<and> pending (run [TimerFires a b] (step Submit analyzingState)) = [analysisDelay]
        \<and> analysisResult (run [TimerFires a b, TimerFires c d] (step Submit analyzingState))
            = Some (analysisOutcome c d)
        \<and> showResults (run [TimerFires a b, TimerFires c d] (step Submit analyzingState))
        \<and> pending (run [TimerFires a b, TimerFires c d] (step Submit analyzingState)) = []"
    by (simp add: s2 p timerFires_def)
  moreover have "pending (step Submit analyzingState) = [analysisDelay, analysisDelay]"
    by (simp add: s2 p)
  ultimately show "\<exists>s. reachable s \<and> isAnalyzing s \<and> submitLabel s = ''Analyzing...''
          \<and> pending s = [analysisDelay]
          \<and> pending (step Submit s) = [analysisDelay, analysisDelay]
          \<and> (\<forall>a b c d.
                analysisResult (run [TimerFires a b] (step Submit s)) = Some (analysisOutcome a b)
              \<and> pending (run [TimerFires a b] (step Submit s)) = [analysisDelay]
              \<and> analysisResult (run [TimerFires a b, TimerFires c d] (step Submit s))
                  = Some (analysisOutcome c d)
              \<and> showResults (run [TimerFires a b, TimerFires c d] (step Submit s))
              \<and> pending (run [TimerFires a b, TimerFires c d] (step Submit s)) = [])"
    using reachable_analyzingState p by blast
next
  assume l: "length (pending (step e t)) < length (pending t)"
  with pending_step[of e t]
  have *: "(\<exists>r1 r2. e = TimerFires r1 r2) \<and> pending t \<noteq> [] \<and> pending (step e t) = tl (pending t)"
    by auto
  then show "\<exists>r1 r2. e = TimerFires r1 r2" "pending (step e t) = tl (pending t)"
    by simp_all
  from * show "analysisResult (step e t) \<noteq> None"
    by (auto simp: timerFires_def split: list.splits)
qed

theorem no_submission_guard_witness:
  "isAnalyzing analyzingState
   \<and> pending (step Submit analyzingState) = [3000, 3000]
   \<and> isAnalyzing (step Submit analyzingState)
   \<and> length (pending (step (TimerFires (3 / 4) (1 / 2)) (step Submit analyzingState)))
       < length (pending (step Submit analyzingState))
   \<and> pending (step (TimerFires (3 / 4) (1 / 2)) (step Submit analyzingState)) = [3000]"
proof -
  have f: "truthy (formData analyzingState ''firstName'')"
    "truthy (formData analyzingState ''lastName'')"
    "truthy (formData analyzingState ''email'')"
    "\<not> (truthy (formData analyzingState ''hasMRI'') \<and> \<not> truthy (formData analyzingState ''mriFile''))"
    "isAnalyzing analyzingState" "pending analyzingState = [3000]"
    by (simp_all add: analyzingState_eq filledState_fields analysisDelay_def)
  note t = no_submission_guard[of analyzingState "TimerFires (3 / 4) (1 / 2)"
      "step Submit analyzingState"]
  from t f have a: "pending (step Submit analyzingState) = [3000, 3000]"
    "isAnalyzing (step Submit analyzingState)"
    by (simp_all add: analysisDelay_def)
  have l: "length (pending (step (TimerFires (3 / 4) (1 / 2)) (step Submit analyzingState)))
       < length (pending (step Submit analyzingState))"
    by (simp add: a timerFires_def del: step.simps(3))
  from t l have "pending (step (TimerFires (3 / 4) (1 / 2)) (step Submit analyzingState))
      = tl (pending (step Submit analyzingState))"
    by blast
  then have b: "pending (step (TimerFires (3 / 4) (1 / 2)) (step Submit analyzingState)) = [3000]"
    by (simp only: a list.sel)
  from f(5) a l b show ?thesis by (intro conjI)
qed

lemma outcome_sample:
  "analysisOutcome (3 / 4) (1 / 2) =
     \<lparr>status = ''Tumor Detected'', confidence = ''90.00%'', detected = True\<rparr>"
  by (simp add: confidence_eval)

text \<open>
  Claim C7. The stub resolves after one fixed delay. \<open>simulateAnalysis\<close> always schedules
  its timer with the same constant, \<open>3000\<close> milliseconds, which lies between \<open>2000\<close> and
  \<open>3000\<close>; every accepted submission schedules exactly one timer, with that delay, and
  in every reachable state every pending timer has it. When a pending timer fires, the
  timer that fires was scheduled with that delay and the stub resolves: its result is
  stored and displayed, and the timer is no longer pending. So an accepted submission
  with nothing else pending is resolved by the firing of its one timer, and not before.
\<close>

theorem analysis_delay_fixed:
  "analysisDelay = 3000 \<and> 2000 \<le> analysisDelay \<and> analysisDelay \<le> 3000
   \<and> pending (simulateAnalysis s) = pending s @ [analysisDelay]
   \<and> (truthy (formData s ''firstName'') \<and> truthy (formData s ''lastName'')
      \<and> truthy (formData s ''email'')
      \<and> \<not> (truthy (formData s ''hasMRI'') \<and> \<not> truthy (formData s ''mriFile'')) \<longrightarrow>
        pending (handleSubmit s) = pending s @ [analysisDelay])
   \<and> (reachable s \<longrightarrow> set (pending s) \<subseteq> {analysisDelay})
   \<and> (reachable s \<and> pending s = d # ds \<longrightarrow>
        d = analysisDelay
        \<and> analysisResult (step (TimerFires r1 r2) s) = Some (analysisOutcome r1 r2)
        \<and> showResults (step (TimerFires r1 r2) s)
        \<and> \<not> isAnalyzing (step (TimerFires r1 r2) s)
        \<and> pending (step (TimerFires r1 r2) s) = ds)
   \<and> (truthy (formData s ''firstName'') \<and> truthy (formData s ''lastName'')
      \<and> truthy (formData s ''email'')
      \<and> \<not> (truthy (formData s ''hasMRI'') \<and> \<not> truthy (formData s ''mriFile''))
      \<and> pending s = [] \<longrightarrow>
        pending (step Submit s) = [analysisDelay]
        \<and> analysisResult (step Submit s) = analysisResult s
        \<and> analysisResult (run [Submit, TimerFires r1 r2] s) = Some (analysisOutcome r1 r2)
        \<and> showResults (run [Submit, TimerFires r1 r2] s)
        \<and> pending (run [Submit, TimerFires r1 r2] s) = [])"
proof (intro conjI impI)
  assume "truthy (formData s ''firstName'') \<and> truthy (formData s ''lastName'')
      \<and> truthy (formData s ''email'')
      \<and> \<not> (truthy (formData s ''hasMRI'') \<and> \<not> truthy (formData s ''mriFile''))"
  then have "handleSubmit s = s\<lparr>isAnalyzing := True, showResults := False,
                              pending := pending s @ [analysisDelay]\<rparr>"
    by (intro handleSubmit_accepted) simp_all
  then show "pending (handleSubmit s) = pending s @ [analysisDelay]" by simp
next
  assume "reachable s"
  then show "set (pending s) \<subseteq> {analysisDelay}" by (rule reachable_pending)
next
  assume a: "reachable s \<and> pending s = d # ds"
  then have "set (pending s) \<subseteq> {analysisDelay}" by (intro reachable_pending) simp
  with a show "d = analysisDelay" by simp
  from a show "analysisResult (step (TimerFires r1 r2) s) = Some (analysisOutcome r1 r2)"
    "showResults (step (TimerFires r1 r2) s)" "\<not> isAnalyzing (step (TimerFires r1 r2) s)"
    "pending (step (TimerFires r1 r2) s) = ds"
    by (simp_all add: timerFires_def)
next
  assume a: "truthy (formData s ''firstName'') \<and> truthy (formData s ''lastName'')
      \<and> truthy (formData s ''email'')
      \<and> \<not> (truthy (formData s ''hasMRI'') \<and> \<not> truthy (formData s ''mriFile''))
      \<and> pending s = []"
  then have h: "handleSubmit s = s\<lparr>isAnalyzing := True, showResults := False,
                              pending := pending s @ [analysisDelay]\<rparr>"
    by (intro handleSubmit_accepted) simp_all
  from a show "pending (step Submit s) = [analysisDelay]"
    "analysisResult (step Submit s) = analysisResult s"
    "analysisResult (run [Submit, TimerFires r1 r2] s) = Some (analysisOutcome r1 r2)"
    "showResults (run [Submit, TimerFires r1 r2] s)"
    "pending (run [Submit, TimerFires r1 r2] s) = []"
    by (simp_all add: h timerFires_def)
qed (simp_all add: analysisDelay_def simulateAnalysis_def)

theorem analysis_delay_fixed_witness:
  "reachable filledState \<and> pending filledState = []
   \<and> pending (step Submit filledState) = [3000]
   \<and> analysisResult (step Submit filledState) = None
   \<and> reachable analyzingState \<and> pending analyzingState = [3000]
   \<and> analysisResult (step (TimerFires (3 / 4) (1 / 2)) analyzingState)
       = Some \<lparr>status = ''Tumor Detected'', confidence = ''90.00%'', detected = True\<rparr>
   \<and> showResults (step (TimerFires (3 / 4) (1 / 2)) analyzingState)
   \<and> pending (step (TimerFires (3 / 4) (1 / 2)) analyzingState) = []
   \<and> analysisResult (run [Submit, TimerFires (3 / 4) (1 / 2)] filledState)
       = Some \<lparr>status = ''Tumor Detected'', confidence = ''90.00%'', detected = True\<rparr>"
proof -
  have f: "truthy (formData filledState ''firstName'') \<and> truthy (formData filledState ''lastName'')
      \<and> truthy (formData filledState ''email'')
      \<and> \<not> (truthy (formData filledState ''hasMRI'') \<and> \<not> truthy (formData filledState ''mriFile''))
      \<and> pending filledState = []"
    by (simp add: filledState_fields)
  have p: "reachable analyzingState \<and> pending analyzingState = [3000]"
    using reachable_analyzingState by (simp add: analyzingState_eq analysisDelay_def)
  note t1 = analysis_delay_fixed[of filledState _ _ "3 / 4" "1 / 2"]
  note t2 = analysis_delay_fixed[of analyzingState 3000 "[]" "3 / 4" "1 / 2"]
  from t1 f have a: "pending (step Submit filledState) = [3000]"
    "analysisResult (step Submit filledState) = None"
    "analysisResult (run [Submit, TimerFires (3 / 4) (1 / 2)] filledState)
       = Some \<lparr>status = ''Tumor Detected'', confidence = ''90.00%'', detected = True\<rparr>"
    by (simp_all add: filledState_fields outcome_sample del: step.simps run.simps)
  from t2 p have b: "analysisResult (step (TimerFires (3 / 4) (1 / 2)) analyzingState)
       = Some \<lparr>status = ''Tumor Detected'', confidence = ''90.00%'', detected = True\<rparr>"
    "showResults (step (TimerFires (3 / 4) (1 / 2)) analyzingState)"
    "pending (step (TimerFires (3 / 4) (1 / 2)) analyzingState) = []"
    by (simp_all add: outcome_sample del: step.simps)
  from f have e: "pending filledState = []" by simp
  from p have r: "reachable analyzingState" and q: "pending analyzingState = [3000]" by simp_all
  from reachable_filledState e a(1) a(2) r q b a(3) show ?thesis by (intro conjI)
qed

section \<open>The form record\<close>

text \<open>
  Claim C8. On page load the form is empty: every text field is the empty string, the
  MRI flag is false, the MRI file is \<open>null\<close>, and the record has no other property.
  The analysis result is a cell of the component's state, absent on page load; a
  submission by itself leaves it as it is, and the resolution of a pending analysis
  overwrites it with the new result, whatever it held: an accepted submission followed
  by the firing of its timer leaves the result of that submission.
\<close>

theorem form_created_empty:
  "formData initialState ''firstName'' = Some (Str '''')
   \<and> formData initialState ''lastName'' = Some (Str '''')
   \<and> formData initialState ''age'' = Some (Str '''')
   \<and> formData initialState ''phone'' = Some (Str '''')
   \<and> formData initialState ''email'' = Some (Str '''')
   \<and> formData initialState ''symptoms'' = Some (Str '''')
   \<and> formData initialState ''hasMRI'' = Some (Bool False)
   \<and> formData initialState ''mriFile'' = Some Null
   \<and> dom (formData initialState) = {''firstName'', ''lastName'', ''age'', ''phone'', ''email'',
        ''symptoms'', ''hasMRI'', ''mriFile''}
   \<and> analysisResult initialState = None
   \<and> \<not> showResults initialState
   \<and> analysisResult (handleSubmit s) = analysisResult s
   \<and> (pending s \<noteq> [] \<longrightarrow>
        analysisResult (timerFires r1 r2 s) = Some (analysisOutcome r1 r2)
        \<and> showResults (timerFires r1 r2 s))
   \<and> (truthy (formData s ''firstName'') \<and> truthy (formData s ''lastName'')
      \<and> truthy (formData s ''email'')
      \<and> \<not> (truthy (formData s ''hasMRI'') \<and> \<not> truthy (formData s ''mriFile''))
      \<and> pending s = [] \<longrightarrow>
        analysisResult (run [Submit, TimerFires r1 r2] s) = Some (analysisOutcome r1 r2))"
proof (intro conjI impI)
  show "dom (formData initialState) = {''firstName'', ''lastName'', ''age'', ''phone'', ''email'',
        ''symptoms'', ''hasMRI'', ''mriFile''}"
    unfolding initialState_def by (simp add: insert_commute)
  show "analysisResult (handleSubmit s) = analysisResult s"
    by (simp add: handleSubmit_def alert_def simulateAnalysis_def)
next
  assume "pending s \<noteq> []"
  then show "analysisResult (timerFires r1 r2 s) = Some (analysisOutcome r1 r2)"
    "showResults (timerFires r1 r2 s)"
    by (simp_all add: timerFires_def split: list.splits)
next
  assume a: "truthy (formData s ''firstName'') \<and> truthy (formData s ''lastName'')
      \<and> truthy (formData s ''email'')
      \<and> \<not> (truthy (formData s ''hasMRI'') \<and> \<not> truthy (formData s ''mriFile''))
      \<and> pending s = []"
  then have "handleSubmit s = s\<lparr>isAnalyzing := True, showResults := False,
                              pending := pending s @ [analysisDelay]\<rparr>"
    by (intro handleSubmit_accepted) simp_all
  then show "analysisResult (run [Submit, TimerFires r1 r2] s) = Some (analysisOutcome r1 r2)"
    using a by (simp add: timerFires_def)
qed (simp_all add: initialState_def)

theorem form_created_empty_witness:
  "analysisResult displayedState = Some (analysisOutcome (3 / 4) (1 / 2))
   \<and> pending displayedState = []
   \<and> analysisResult (run [Submit, TimerFires (1 / 4) 0] displayedState)
       = Some (analysisOutcome (1 / 4) 0)
   \<and> detected (analysisOutcome (3 / 4) (1 / 2)) \<and> \<not> detected (analysisOutcome (1 / 4) 0)
   \<and> pending analyzingState \<noteq> []
   \<and> analysisResult (timerFires (3 / 4) (1 / 2) analyzingState)
       = Some (analysisOutcome (3 / 4) (1 / 2))"
proof -
  have f: "truthy (formData displayedState ''firstName'')
      \<and> truthy (formData displayedState ''lastName'')
      \<and> truthy (formData displayedState ''email'')
      \<and> \<not> (truthy (formData displayedState ''hasMRI'')
            \<and> \<not> truthy (formData displayedState ''mriFile''))
      \<and> pending displayedState = []"
    by (simp add: displayedState_fields)
  from form_created_empty[of displayedState "1 / 4" 0] f
  have a: "analysisResult (run [Submit, TimerFires (1 / 4) 0] displayedState)
      = Some (analysisOutcome (1 / 4) 0)"
    by blast
  have p: "pending analyzingState \<noteq> []"
    by (simp add: analyzingState_eq)
  from form_created_empty[of analyzingState "3 / 4" "1 / 2"] p
  have b: "analysisResult (timerFires (3 / 4) (1 / 2) analyzingState)
      = Some (analysisOutcome (3 / 4) (1 / 2))"
    by blast
  have d: "detected (analysisOutcome (3 / 4) (1 / 2))" "\<not> detected (analysisOutcome (1 / 4) 0)"
    by (simp_all add: analysisOutcome_detected)
  from displayedState_fields(9) displayedState_fields(6) a d p b show ?thesis by (intro conjI)
qed

text \<open>
  Claim C10. \<open>handleInputChange\<close> sets the property named by the event, to the
  \<open>checked\<close> boolean for a checkbox and to the string \<open>value\<close> otherwise, and changes no
  other property of the form and no other cell of the state. \<open>handleFileChange\<close> with
  no file selected changes nothing at all. Unchecking the MRI flag sets the flag to
  false and keeps the attached file and its preview.
\<close>

theorem handlers_frame:
  "formData (handleInputChange t s) (target_name t)
      = Some (if target_type t = ''checkbox'' then Bool (target_checked t) else Str (target_value t))
   \<and> (\<forall>k. k \<noteq> target_name t \<longrightarrow> formData (handleInputChange t s) k = formData s k)
   \<and> handleInputChange t s = s\<lparr>formData := formData (handleInputChange t s)\<rparr>
   \<and> handleFileChange None s = s
   \<and> (target_name t = ''hasMRI'' \<and> target_type t = ''checkbox'' \<and> \<not> target_checked t \<longrightarrow>
        formData (handleInputChange t s) ''hasMRI'' = Some (Bool False)
        \<and> formData (handleInputChange t s) ''mriFile'' = formData s ''mriFile''
        \<and> mriPreview (handleInputChange t s) = mriPreview s)"
  by (simp add: handleInputChange_def handleFileChange_def)

theorem handlers_frame_witness:
  "formData attachedState ''mriFile'' = Some (FileObj mriScan)
   \<and> formData (step (tick ''hasMRI'' False) attachedState) ''hasMRI'' = Some (Bool False)
   \<and> formData (step (tick ''hasMRI'' False) attachedState) ''mriFile'' = Some (FileObj mriScan)
   \<and> mriPreview (step (tick ''hasMRI'' False) attachedState) = Some (ObjectURL mriScan)
   \<and> formData (step (typeText ''age'' ''36'') attachedState) ''age'' = Some (Str ''36'')
   \<and> formData (step (typeText ''age'' ''36'') attachedState) ''firstName'' = Some (Str ''Ada'')
   \<and> step (FileChange None) attachedState = attachedState"
proof -
  let ?u = "\<lparr>target_name = ''hasMRI'', target_value = ''on'', target_type = ''checkbox'',
             target_checked = False\<rparr>"
  let ?a = "\<lparr>target_name = ''age'', target_value = ''36'', target_type = ''text'',
             target_checked = False\<rparr>"
  note u = handlers_frame[of ?u attachedState]
  note a = handlers_frame[of ?a attachedState]
  from u have u1: "formData (step (tick ''hasMRI'' False) attachedState) ''hasMRI'' = Some (Bool False)"
    and u2: "formData (step (tick ''hasMRI'' False) attachedState) ''mriFile'' = Some (FileObj mriScan)"
    and u3: "mriPreview (step (tick ''hasMRI'' False) attachedState) = Some (ObjectURL mriScan)"
    by (simp_all add: tick_def attachedState_fields)
  from a have a1: "formData (step (typeText ''age'' ''36'') attachedState) ''age'' = Some (Str ''36'')"
    by (simp add: typeText_def)
  from a have "\<forall>k. k \<noteq> ''age'' \<longrightarrow>
      formData (handleInputChange ?a attachedState) k = formData attachedState k"
    by simp
  then have "formData (handleInputChange ?a attachedState) ''firstName''
      = formData attachedState ''firstName''"
    by simp
  then have a2: "formData (step (typeText ''age'' ''36'') attachedState) ''firstName''
      = Some (Str ''Ada'')"
    by (simp add: typeText_def attachedState_fields)
  from u have n: "step (FileChange None) attachedState = attachedState"
    by simp
  from attachedState_fields(5) u1 u2 u3 a1 a2 n show ?thesis by (intro conjI)
qed

end
